theory Spec2Isabelle
  imports Complex_Main "HOL-Library.AList"
begin

section \<open>One-pass variance accumulation (libertem/udf/stddev.py)\<close>

subsection \<open>Array elements and elementwise arithmetic\<close>

text \<open>
  The buffers of the program are numpy arrays of floating-point numbers.  The model
  uses exact arithmetic: an element is either a real number or \<open>None\<close>, which stands
  for every value that is not a finite number (NaN, plus or minus infinity).  numpy does
  not raise on a division by zero, it stores such a value; every operation the program
  applies to arrays (sum, difference, product, division by a count, square root) yields a
  non-finite value again when an operand is non-finite, so a single absorbing value is
  enough.
\<close>

type_synonym elem = "real option"

definition e_add :: "elem \<Rightarrow> elem \<Rightarrow> elem" where
  "e_add a b =
     (case a of None \<Rightarrow> None
      | Some x \<Rightarrow> (case b of None \<Rightarrow> None | Some y \<Rightarrow> Some (x + y)))"

definition e_sub :: "elem \<Rightarrow> elem \<Rightarrow> elem" where
  "e_sub a b =
     (case a of None \<Rightarrow> None
      | Some x \<Rightarrow> (case b of None \<Rightarrow> None | Some y \<Rightarrow> Some (x - y)))"

definition e_mul :: "elem \<Rightarrow> elem \<Rightarrow> elem" where
  "e_mul a b =
     (case a of None \<Rightarrow> None
      | Some x \<Rightarrow> (case b of None \<Rightarrow> None | Some y \<Rightarrow> Some (x * y)))"

text \<open>A Python integer times an element (\<open>p1.N * delta\<close>).\<close>

definition e_scale :: "nat \<Rightarrow> elem \<Rightarrow> elem" where
  "e_scale n a = (case a of None \<Rightarrow> None | Some x \<Rightarrow> Some (real n * x))"

text \<open>
  An element divided by a Python integer (\<open>sum_im / N\<close>): dividing by zero gives NaN
  or an infinity, not an exception.
\<close>

definition e_div :: "elem \<Rightarrow> nat \<Rightarrow> elem" where
  "e_div a n =
     (case a of None \<Rightarrow> None
      | Some x \<Rightarrow> (if n = 0 then None else Some (x / real n)))"

text \<open>\<open>np.sqrt\<close>: NaN on a negative number.\<close>

definition e_sqrt :: "elem \<Rightarrow> elem" where
  "e_sqrt a =
     (case a of None \<Rightarrow> None
      | Some x \<Rightarrow> (if x < 0 then None else Some (sqrt x)))"

text \<open>
  A signal-shaped array is a function from the pixel index to its element; the index
  type \<open>'i\<close> is the signal shape, so two arrays of one type always have the same shape.
\<close>

type_synonym 'i array = "'i \<Rightarrow> elem"

definition a_add :: "'i array \<Rightarrow> 'i array \<Rightarrow> 'i array" where
  "a_add a b = (\<lambda>i. e_add (a i) (b i))"

definition a_sub :: "'i array \<Rightarrow> 'i array \<Rightarrow> 'i array" where
  "a_sub a b = (\<lambda>i. e_sub (a i) (b i))"

definition a_mul :: "'i array \<Rightarrow> 'i array \<Rightarrow> 'i array" where
  "a_mul a b = (\<lambda>i. e_mul (a i) (b i))"

definition a_scale :: "nat \<Rightarrow> 'i array \<Rightarrow> 'i array" where
  "a_scale n a = (\<lambda>i. e_scale n (a i))"

definition a_div :: "'i array \<Rightarrow> nat \<Rightarrow> 'i array" where
  "a_div a n = (\<lambda>i. e_div (a i) n)"

definition a_sqrt :: "'i array \<Rightarrow> 'i array" where
  "a_sqrt a = (\<lambda>i. e_sqrt (a i))"

subsection \<open>The pairwise merge\<close>

text \<open>
  \<open>VariancePart = namedtuple('VariancePart', ['var', 'sum_im', 'N'])\<close>.  The count is a
  number of frames, a natural number.
\<close>

record 'i VariancePart =
  var :: "'i array"
  sum_im :: "'i array"
  N :: nat

definition merge :: "'i VariancePart \<Rightarrow> 'i VariancePart \<Rightarrow> 'i VariancePart" where
  "merge p0 p1 =
     (if N p0 = 0 then p1
      else
        let n = N p0 + N p1;
            mean_A = a_div (sum_im p0) (N p0);
            mean_B = a_div (sum_im p1) (N p1);
            delta = a_sub mean_B mean_A;
            mean = a_add mean_A (a_div (a_scale (N p1) delta) (N p0 + N p1));
            sum_im_AB = a_add (sum_im p0) (sum_im p1);
            delta_P = a_sub mean_B mean;
            var_AB = a_add (a_add (var p0) (var p1)) (a_mul (a_scale (N p1) delta) delta_P)
        in \<lparr>var = var_AB, sum_im = sum_im_AB, N = n\<rparr>)"

subsection \<open>Reductions over the frame axis of a tile\<close>

text \<open>
  A tile is a stack of frames: its leading axis indexes the frames, the remaining axes
  are the signal.  It is modelled as the list of its frames.  \<open>tile.sum(axis=0)\<close>
  adds the frames pixel by pixel, starting from zero.
\<close>

fun e_sum :: "elem list \<Rightarrow> elem" where
  "e_sum [] = Some 0"
| "e_sum (x # xs) = e_add x (e_sum xs)"

definition np_sum :: "'i array list \<Rightarrow> 'i array" where
  "np_sum tile = (\<lambda>i. e_sum (map (\<lambda>frame. frame i) tile))"

text \<open>
  \<open>np.var(tile, axis=0, ddof=d)\<close> as numpy computes it, for each pixel: the mean over
  the frame axis, the deviations from it, their squares summed over the frame axis,
  divided by \<open>max(number of frames - d, 0)\<close>.
\<close>

definition e_var :: "elem list \<Rightarrow> int \<Rightarrow> elem" where
  "e_var xs ddof =
     (let arrmean = e_div (e_sum xs) (length xs);
          x = map (\<lambda>v. e_sub v arrmean) xs;
          sq = map (\<lambda>d. e_mul d d) x
      in e_div (e_sum sq) (nat (int (length xs) - ddof)))"

definition np_var :: "'i array list \<Rightarrow> int \<Rightarrow> 'i array" where
  "np_var tile ddof = (\<lambda>i. e_var (map (\<lambda>frame. frame i) tile) ddof)"

subsection \<open>Region bookkeeping\<close>

text \<open>
  \<open>num_frame\<close> is a Python dict from region key to count.  A dict keeps its keys in
  insertion order and \<open>_validate_n\<close> reads the first value, so the dict is an association
  list: \<open>AList.update\<close> overwrites the value of a key in place and appends a new key at
  the end, as the assignment \<open>d[key] = v\<close> does.  A failed \<open>assert\<close> is the error
  value \<open>AssertionError\<close>.
\<close>

datatype error = AssertionError

definition validate_n :: "('k \<times> nat) list \<Rightarrow> error + nat" where
  "validate_n num_frame =
     (if length num_frame = 0 then Inr 0
      else
        (case map snd num_frame of
           [] \<Rightarrow> Inr 0
         | v0 # vs \<Rightarrow>
             if list_all (\<lambda>v. v = v0) (v0 # vs) then Inr v0 else Inl AssertionError))"

subsection \<open>The result buffers and the steps of the UDF\<close>

text \<open>
  The region key of a tile is \<open>self.meta.slice.discard_nav()\<close>, the signal-space slice
  the tile covers; it is modelled as the set of pixel indices of that slice.  The buffers
  \<open>var\<close> and \<open>sum_frame\<close> are signal-shaped; \<open>num_frame\<close> holds the dict.
\<close>

record 'i results =
  buf_var :: "'i array"
  buf_sum_frame :: "'i array"
  buf_num_frame :: "('i set \<times> nat) list"

text \<open>
  Modelled from the spec: the host allocates the buffers and zeroes them before any
  tile is processed; \<open>preprocess\<close> then stores an empty dict.
\<close>

definition zeros :: "'i array" where
  "zeros = (\<lambda>i. Some 0)"

definition preprocess :: "'i results \<Rightarrow> 'i results" where
  "preprocess res = res\<lparr>buf_num_frame := []\<rparr>"

definition allocate_buffers :: "'i results" where
  "allocate_buffers = \<lparr>buf_var = zeros, buf_sum_frame = zeros, buf_num_frame = []\<rparr>"

text \<open>
  Inside \<open>process_tile\<close> the host hands out \<open>self.results.var\<close> and
  \<open>self.results.sum_frame\<close> as views of the buffers restricted to the slice of the
  current tile: reading the view reads the buffer on the slice, and an assignment
  \<open>view[:] = a\<close> changes the buffer on the slice only.
\<close>

definition write_view :: "'i set \<Rightarrow> 'i array \<Rightarrow> 'i array \<Rightarrow> 'i array" where
  "write_view key buf a = (\<lambda>i. if i \<in> key then a i else buf i)"

definition process_tile :: "'i set \<Rightarrow> 'i array list \<Rightarrow> 'i results \<Rightarrow> 'i results" where
  "process_tile key tile res =
     (let num_frame =
            (if map_of (buf_num_frame res) key = None
             then AList.update key 0 (buf_num_frame res)
             else buf_num_frame res);
          tile_sum = np_sum tile;
          p0 = \<lparr>var = buf_var res, sum_im = buf_sum_frame res, N = the (map_of num_frame key)\<rparr>;
          p1 = \<lparr>var = np_var tile (int (length tile) - 1), sum_im = tile_sum,
                 N = length tile\<rparr>;
          compute_merge = merge p0 p1
      in \<lparr>buf_var = write_view key (buf_var res) (var compute_merge),
          buf_sum_frame = write_view key (buf_sum_frame res) (sum_im compute_merge),
          buf_num_frame = AList.update key (N compute_merge) num_frame\<rparr>)"

text \<open>
  \<open>StdDevUDF.merge(dest, src)\<close>: both arguments are whole buffers; the updated
  \<open>dest\<close> is returned, \<open>src\<close> is only read.
\<close>

definition StdDevUDF_merge :: "'i results \<Rightarrow> 'i results \<Rightarrow> error + 'i results" where
  "StdDevUDF_merge dest src =
     (case validate_n (buf_num_frame dest) of
        Inl e \<Rightarrow> Inl e
      | Inr N0 \<Rightarrow>
          (case validate_n (buf_num_frame src) of
             Inl e \<Rightarrow> Inl e
           | Inr N1 \<Rightarrow>
               let p0 = \<lparr>var = buf_var dest, sum_im = buf_sum_frame dest, N = N0\<rparr>;
                   p1 = \<lparr>var = buf_var src, sum_im = buf_sum_frame src, N = N1\<rparr>;
                   compute_merge = merge p0 p1
               in Inr \<lparr>buf_var = var compute_merge,
                       buf_sum_frame = sum_im compute_merge,
                       buf_num_frame =
                         fold (\<lambda>key d. AList.update key (N compute_merge) d)
                           (map fst (buf_num_frame src)) (buf_num_frame dest)\<rparr>))"

subsection \<open>Finalization\<close>

record 'i stddev_result =
  res_var :: "'i array"
  res_std :: "'i array"
  res_mean :: "'i array"
  res_num_frame :: nat
  res_sum_frame :: "'i array"

definition consolidate_result :: "'i results \<Rightarrow> error + 'i stddev_result" where
  "consolidate_result udf_result =
     (case validate_n (buf_num_frame udf_result) of
        Inl e \<Rightarrow> Inl e
      | Inr num_frame \<Rightarrow>
          let v = a_div (buf_var udf_result) num_frame
          in Inr \<lparr>res_var = v,
                  res_std = a_sqrt v,
                  res_mean = a_div (buf_sum_frame udf_result) num_frame,
                  res_num_frame = num_frame,
                  res_sum_frame = buf_sum_frame udf_result\<rparr>)"

subsection \<open>Notions used in the statements\<close>

text \<open>Constant arrays: every element non-finite, every element the number \<open>c\<close>.\<close>

definition nans :: "'i array" where
  "nans = (\<lambda>i. None)"

definition full :: "real \<Rightarrow> 'i array" where
  "full c = (\<lambda>i. Some c)"

text \<open>
  The local accumulator that \<open>process_tile\<close> builds from a tile (its \<open>p1\<close>).
\<close>

definition tile_part :: "'i array list \<Rightarrow> 'i VariancePart" where
  "tile_part tile =
     \<lparr>var = np_var tile (int (length tile) - 1), sum_im = np_sum tile, N = length tile\<rparr>"

text \<open>
  Streaming a sequence of frames as single-frame tiles under one region key, starting
  from the buffers as the host hands them over.
\<close>

definition stream_frames :: "'i set \<Rightarrow> 'i array list \<Rightarrow> 'i results" where
  "stream_frames key frames =
     fold (\<lambda>frame. process_tile key [frame]) frames (preprocess allocate_buffers)"

text \<open>
  On real numbers: the sum of squared deviations of a list from its own mean, and the
  variance update of the merge for finite elements.
\<close>

definition ssd :: "real list \<Rightarrow> real" where
  "ssd xs = (\<Sum>x\<leftarrow>xs. (x - sum_list xs / real (length xs))\<^sup>2)"

definition chan :: "real \<Rightarrow> real \<Rightarrow> nat \<Rightarrow> real \<Rightarrow> real \<Rightarrow> nat \<Rightarrow> real" where
  "chan va sa na vb sb nb =
     va + vb + real nb * (sb / real nb - sa / real na)
       * (sb / real nb - (sa / real na + real nb * (sb / real nb - sa / real na) / real (na + nb)))"

text \<open>
  The two-pass population variance, in the words of the specification: the sum of the
  squared deviations from the overall mean, divided by the number of values.
\<close>

definition population_variance :: "real list \<Rightarrow> real" where
  "population_variance xs =
     (\<Sum>x\<leftarrow>xs. (x - sum_list xs / real (length xs))\<^sup>2) / real (length xs)"

text \<open>
  The buffers describe the frames \<open>frames\<close> on the region \<open>key\<close>: the count stored
  for the key (0 when the key is absent) is the number of frames, and on every pixel of
  the region the two arrays hold the sum and the sum of squared deviations of exactly
  these frames.
\<close>

definition region_holds :: "'i set \<Rightarrow> 'i array list \<Rightarrow> 'i results \<Rightarrow> bool" where
  "region_holds key frames res \<longleftrightarrow>
     (case map_of (buf_num_frame res) key of None \<Rightarrow> 0 | Some n \<Rightarrow> n) = length frames
     \<and> (frames \<noteq> [] \<longrightarrow>
          (\<forall>i\<in>key. buf_var res i = var (tile_part frames) i
                 \<and> buf_sum_frame res i = sum_im (tile_part frames) i))"

subsection \<open>The same steps in float32 arithmetic\<close>

text \<open>
  The buffers \<open>var\<close> and \<open>sum_frame\<close> are declared with \<open>dtype='float32'\<close>.  For a
  dataset whose frames are float32 as well, every array operation of the program
  rounds its result to float32.  The definitions of this subsection repeat the steps
  above with that rounding; an element is still a real number (now one that float32
  represents) or \<open>None\<close>.
\<close>

text \<open>
  The binary exponent of a positive number: \<open>expo k x = e\<close> when
  \<open>2 ^ e \<le> x < 2 ^ (e + 1)\<close> and \<open>k\<close> steps reach it.  With 128 steps every exponent
  from -128 to 128 is found; float32 uses -126 to 127.
\<close>

primrec expo :: "nat \<Rightarrow> real \<Rightarrow> int" where
  "expo 0 x = 0"
| "expo (Suc k) x =
     (if 2 \<le> x then expo k (x / 2) + 1 else if x < 1 then expo k (x * 2) - 1 else 0)"

text \<open>Rounding to the nearest integer, a tie to the even one.\<close>

definition round_half_even :: "real \<Rightarrow> int" where
  "round_half_even t =
     (let f = \<lfloor>t\<rfloor>; d = t - of_int f
      in if d < 1 / 2 then f else if 1 / 2 < d then f + 1 else if even f then f else f + 1)"

text \<open>
  Rounding a real number to float32 (IEEE 754 binary32, round to nearest, ties to
  even): a significand of 24 bits, the exponent not below -126 (gradual underflow), and
  a result of magnitude \<open>2 ^ 128\<close> or more is an infinity.
\<close>

definition f32 :: "real \<Rightarrow> elem" where
  "f32 x =
     (if x = 0 then Some 0
      else
        let e = max (expo 128 \<bar>x\<bar>) (- 126);
            ulp = 2 powi (e - 23);
            y = of_int (round_half_even (x / ulp)) * ulp
        in if 2 powi 128 \<le> \<bar>y\<bar> then None else Some y)"

text \<open>
  The elementwise operations on float32 operands: the exact result, rounded.  A count
  is a Python integer; numpy converts it to float32 before it multiplies or divides.
\<close>

definition f32_add :: "elem \<Rightarrow> elem \<Rightarrow> elem" where
  "f32_add a b =
     (case a of None \<Rightarrow> None
      | Some x \<Rightarrow> (case b of None \<Rightarrow> None | Some y \<Rightarrow> f32 (x + y)))"

definition f32_sub :: "elem \<Rightarrow> elem \<Rightarrow> elem" where
  "f32_sub a b =
     (case a of None \<Rightarrow> None
      | Some x \<Rightarrow> (case b of None \<Rightarrow> None | Some y \<Rightarrow> f32 (x - y)))"

definition f32_mul :: "elem \<Rightarrow> elem \<Rightarrow> elem" where
  "f32_mul a b =
     (case a of None \<Rightarrow> None
      | Some x \<Rightarrow> (case b of None \<Rightarrow> None | Some y \<Rightarrow> f32 (x * y)))"

definition f32_scale :: "nat \<Rightarrow> elem \<Rightarrow> elem" where
  "f32_scale n a =
     (case f32 (real n) of None \<Rightarrow> None
      | Some c \<Rightarrow> (case a of None \<Rightarrow> None | Some x \<Rightarrow> f32 (c * x)))"

definition f32_div :: "elem \<Rightarrow> nat \<Rightarrow> elem" where
  "f32_div a n =
     (case a of None \<Rightarrow> None
      | Some x \<Rightarrow>
          (if n = 0 then None
           else (case f32 (real n) of None \<Rightarrow> None | Some c \<Rightarrow> f32 (x / c))))"

definition f32_sqrt :: "elem \<Rightarrow> elem" where
  "f32_sqrt a =
     (case a of None \<Rightarrow> None
      | Some x \<Rightarrow> (if x < 0 then None else f32 (sqrt x)))"

definition f32_a_add :: "'i array \<Rightarrow> 'i array \<Rightarrow> 'i array" where
  "f32_a_add a b = (\<lambda>i. f32_add (a i) (b i))"

definition f32_a_sub :: "'i array \<Rightarrow> 'i array \<Rightarrow> 'i array" where
  "f32_a_sub a b = (\<lambda>i. f32_sub (a i) (b i))"

definition f32_a_mul :: "'i array \<Rightarrow> 'i array \<Rightarrow> 'i array" where
  "f32_a_mul a b = (\<lambda>i. f32_mul (a i) (b i))"

definition f32_a_scale :: "nat \<Rightarrow> 'i array \<Rightarrow> 'i array" where
  "f32_a_scale n a = (\<lambda>i. f32_scale n (a i))"

definition f32_a_div :: "'i array \<Rightarrow> nat \<Rightarrow> 'i array" where
  "f32_a_div a n = (\<lambda>i. f32_div (a i) n)"

definition f32_a_sqrt :: "'i array \<Rightarrow> 'i array" where
  "f32_a_sqrt a = (\<lambda>i. f32_sqrt (a i))"

text \<open>The function \<open>merge\<close> again, every array operation in float32.\<close>

definition f32_merge :: "'i VariancePart \<Rightarrow> 'i VariancePart \<Rightarrow> 'i VariancePart" where
  "f32_merge p0 p1 =
     (if N p0 = 0 then p1
      else
        let n = N p0 + N p1;
            mean_A = f32_a_div (sum_im p0) (N p0);
            mean_B = f32_a_div (sum_im p1) (N p1);
            delta = f32_a_sub mean_B mean_A;
            mean = f32_a_add mean_A (f32_a_div (f32_a_scale (N p1) delta) (N p0 + N p1));
            sum_im_AB = f32_a_add (sum_im p0) (sum_im p1);
            delta_P = f32_a_sub mean_B mean;
            var_AB = f32_a_add (f32_a_add (var p0) (var p1))
                       (f32_a_mul (f32_a_scale (N p1) delta) delta_P)
        in \<lparr>var = var_AB, sum_im = sum_im_AB, N = n\<rparr>)"

text \<open>
  \<open>tile.sum(axis=0)\<close> and \<open>np.var(tile, axis=0, ddof=d)\<close> on a float32 tile: numpy
  adds the frames one after the other and keeps every intermediate result in float32.
\<close>

definition f32_sum :: "elem list \<Rightarrow> elem" where
  "f32_sum xs = foldl f32_add (Some 0) xs"

definition f32_np_sum :: "'i array list \<Rightarrow> 'i array" where
  "f32_np_sum tile = (\<lambda>i. f32_sum (map (\<lambda>frame. frame i) tile))"

definition f32_var :: "elem list \<Rightarrow> int \<Rightarrow> elem" where
  "f32_var xs ddof =
     (let arrmean = f32_div (f32_sum xs) (length xs);
          x = map (\<lambda>v. f32_sub v arrmean) xs;
          sq = map (\<lambda>d. f32_mul d d) x
      in f32_div (f32_sum sq) (nat (int (length xs) - ddof)))"

definition f32_np_var :: "'i array list \<Rightarrow> int \<Rightarrow> 'i array" where
  "f32_np_var tile ddof = (\<lambda>i. f32_var (map (\<lambda>frame. frame i) tile) ddof)"

text \<open>
  \<open>process_tile\<close>, \<open>consolidate_result\<close> and the streaming of single frames, with
  the float32 operations.
\<close>

definition f32_process_tile :: "'i set \<Rightarrow> 'i array list \<Rightarrow> 'i results \<Rightarrow> 'i results" where
  "f32_process_tile key tile res =
     (let num_frame =
            (if map_of (buf_num_frame res) key = None
             then AList.update key 0 (buf_num_frame res)
             else buf_num_frame res);
          tile_sum = f32_np_sum tile;
          p0 = \<lparr>var = buf_var res, sum_im = buf_sum_frame res, N = the (map_of num_frame key)\<rparr>;
          p1 = \<lparr>var = f32_np_var tile (int (length tile) - 1), sum_im = tile_sum,
                 N = length tile\<rparr>;
          compute_merge = f32_merge p0 p1
      in \<lparr>buf_var = write_view key (buf_var res) (var compute_merge),
          buf_sum_frame = write_view key (buf_sum_frame res) (sum_im compute_merge),
          buf_num_frame = AList.update key (N compute_merge) num_frame\<rparr>)"

definition f32_consolidate_result :: "'i results \<Rightarrow> error + 'i stddev_result" where
  "f32_consolidate_result udf_result =
     (case validate_n (buf_num_frame udf_result) of
        Inl e \<Rightarrow> Inl e
      | Inr num_frame \<Rightarrow>
          let v = f32_a_div (buf_var udf_result) num_frame
          in Inr \<lparr>res_var = v,
                  res_std = f32_a_sqrt v,
                  res_mean = f32_a_div (buf_sum_frame udf_result) num_frame,
                  res_num_frame = num_frame,
                  res_sum_frame = buf_sum_frame udf_result\<rparr>)"

definition f32_stream_frames :: "'i set \<Rightarrow> 'i array list \<Rightarrow> 'i results" where
  "f32_stream_frames key frames =
     fold (\<lambda>frame. f32_process_tile key [frame]) frames (preprocess allocate_buffers)"

section \<open>Properties\<close>

lemmas e_defs = e_add_def e_sub_def e_mul_def e_scale_def e_div_def

lemmas a_defs = a_add_def a_sub_def a_mul_def a_scale_def a_div_def

subsection \<open>The merge formula\<close>

text \<open>
  C1: for two accumulators with positive counts the merge returns count \<open>N_A + N_B\<close>,
  the sum of the two value sums, and
  \<open>variance_sum_A + variance_sum_B + N_B * delta * delta_P\<close> with
  \<open>delta = value_sum_B / N_B - value_sum_A / N_A\<close> and
  \<open>delta_P = value_sum_B / N_B - (value_sum_A / N_A + N_B * delta / (N_A + N_B))\<close>,
  elementwise with the counts broadcast.  The first conjunct is the equation between
  arrays; the second reads it at a pixel whose four input elements are finite numbers.
\<close>

theorem merge_formula:
  assumes "0 < N p0" and "0 < N p1"
  shows "(let mean_A = a_div (sum_im p0) (N p0);
              mean_B = a_div (sum_im p1) (N p1);
              delta = a_sub mean_B mean_A;
              delta_P = a_sub mean_B (a_add mean_A (a_div (a_scale (N p1) delta) (N p0 + N p1)))
          in merge p0 p1 =
               \<lparr>var = a_add (a_add (var p0) (var p1)) (a_mul (a_scale (N p1) delta) delta_P),
                sum_im = a_add (sum_im p0) (sum_im p1),
                N = N p0 + N p1\<rparr>)
       \<and> (\<forall>i va sa vb sb.
             var p0 i = Some va \<and> sum_im p0 i = Some sa \<and>
             var p1 i = Some vb \<and> sum_im p1 i = Some sb \<longrightarrow>
             (let delta = sb / real (N p1) - sa / real (N p0);
                  delta_P = sb / real (N p1)
                    - (sa / real (N p0) + real (N p1) * delta / real (N p0 + N p1))
              in sum_im (merge p0 p1) i = Some (sa + sb)
                 \<and> var (merge p0 p1) i = Some (va + vb + real (N p1) * delta * delta_P)))"
  using assms by (simp add: merge_def Let_def a_defs e_defs)

text \<open>
  Two frames with the values 1 and 3 (sum 4, squared deviations 2) merged with one
  frame of value 8: the three values have sum 12 and squared deviations 26.
\<close>

theorem merge_formula_witness:
  "N (merge \<lparr>var = (\<lambda>i::bool. Some 2), sum_im = (\<lambda>i. Some 4), N = 2\<rparr>
            \<lparr>var = (\<lambda>i. Some 0), sum_im = (\<lambda>i. Some 8), N = 1\<rparr>) = 3
   \<and> sum_im (merge \<lparr>var = (\<lambda>i::bool. Some 2), sum_im = (\<lambda>i. Some 4), N = 2\<rparr>
            \<lparr>var = (\<lambda>i. Some 0), sum_im = (\<lambda>i. Some 8), N = 1\<rparr>) True = Some 12
   \<and> var (merge \<lparr>var = (\<lambda>i::bool. Some 2), sum_im = (\<lambda>i. Some 4), N = 2\<rparr>
            \<lparr>var = (\<lambda>i. Some 0), sum_im = (\<lambda>i. Some 8), N = 1\<rparr>) True = Some 26"
  using merge_formula [of "\<lparr>var = (\<lambda>i::bool. Some 2), sum_im = (\<lambda>i. Some 4), N = 2\<rparr>"
      "\<lparr>var = (\<lambda>i::bool. Some 0), sum_im = (\<lambda>i. Some 8), N = 1\<rparr>"]
  by (simp add: Let_def a_defs e_defs)

subsection \<open>Algebra of the merge\<close>

lemma chan_means:
  fixes a b mA mB :: real
  assumes "0 < a" "0 < b"
  shows "a * mA\<^sup>2 + b * mB\<^sup>2 - b * (mB - mA) * (mB - (mA + b * (mB - mA) / (a + b)))
         = (a * mA + b * mB)\<^sup>2 / (a + b)"
proof -
  define X where "X = a * mA\<^sup>2 + b * mB\<^sup>2 - b * (mB - mA) * (mB - (mA + b * (mB - mA) / (a + b)))"
  have ab: "a + b \<noteq> 0" using assms by simp
  have "X * (a + b) = (a * mA + b * mB)\<^sup>2"
    unfolding X_def using ab by (simp add: field_simps power2_eq_square)
  then have "X = (a * mA + b * mB)\<^sup>2 / (a + b)"
    using ab by (simp add: eq_divide_eq)
  then show ?thesis by (simp only: X_def)
qed

lemma chan_real:
  fixes q0 q1 s0 s1 :: real and n0 n1 :: nat
  assumes "0 < n0" "0 < n1"
  shows "(q0 - s0\<^sup>2 / real n0) + (q1 - s1\<^sup>2 / real n1)
          + real n1 * (s1 / real n1 - s0 / real n0)
            * (s1 / real n1 - (s0 / real n0 + real n1 * (s1 / real n1 - s0 / real n0) / real (n0 + n1)))
         = (q0 + q1) - (s0 + s1)\<^sup>2 / real (n0 + n1)"
proof -
  define a where "a = real n0"
  define b where "b = real n1"
  define mA where "mA = s0 / a"
  define mB where "mB = s1 / b"
  have a: "a > 0" and b: "b > 0" using assms by (simp_all add: a_def b_def)
  have s0: "a * mA = s0" and s1: "b * mB = s1" using a b by (simp_all add: mA_def mB_def)
  have e0: "s0\<^sup>2 / a = a * mA\<^sup>2" and e1: "s1\<^sup>2 / b = b * mB\<^sup>2"
    using a b by (simp_all add: s0[symmetric] s1[symmetric] power2_eq_square)
  have ab: "real (n0 + n1) = a + b" by (simp add: a_def b_def)
  have "(q0 - s0\<^sup>2 / a) + (q1 - s1\<^sup>2 / b)
          + b * (mB - mA) * (mB - (mA + b * (mB - mA) / (a + b)))
         = (q0 + q1) - (a * mA + b * mB)\<^sup>2 / (a + b)"
    unfolding e0 e1 using chan_means[OF a b, of mA mB] by simp
  then have "(q0 - s0\<^sup>2 / a) + (q1 - s1\<^sup>2 / b)
          + b * (mB - mA) * (mB - (mA + b * (mB - mA) / (a + b)))
         = (q0 + q1) - (s0 + s1)\<^sup>2 / (a + b)"
    by (simp only: s0 s1)
  then show ?thesis
    unfolding ab mA_def mB_def unfolding a_def b_def .
qed

lemma chan_closed:
  assumes "0 < na" "0 < nb"
  shows "chan va sa na vb sb nb
         = (va + sa\<^sup>2 / real na) + (vb + sb\<^sup>2 / real nb) - (sa + sb)\<^sup>2 / real (na + nb)"
  using chan_real[OF assms, of "va + sa\<^sup>2 / real na" sa "vb + sb\<^sup>2 / real nb" sb]
  by (simp add: chan_def)

lemma chan_commute:
  assumes "0 < na" "0 < nb"
  shows "chan va sa na vb sb nb = chan vb sb nb va sa na"
  using assms by (simp add: chan_closed add.commute)

lemma chan_assoc:
  assumes "0 < na" "0 < nb" "0 < nc"
  shows "chan (chan va sa na vb sb nb) (sa + sb) (na + nb) vc sc nc
         = chan va sa na (chan vb sb nb vc sc nc) (sb + sc) (nb + nc)"
  using assms by (simp add: chan_closed add.assoc)

lemma merge_N: "N (merge p0 p1) = N p0 + N p1"
  by (simp add: merge_def Let_def)

lemma merge_sum_pixel: "0 < N p0 \<Longrightarrow> sum_im (merge p0 p1) i = e_add (sum_im p0 i) (sum_im p1 i)"
  by (simp add: merge_def Let_def a_add_def)

lemma merge_var_pixel:
  assumes "0 < N p0"
  shows "var (merge p0 p1) i =
     (case var p0 i of None \<Rightarrow> None | Some va \<Rightarrow>
      (case sum_im p0 i of None \<Rightarrow> None | Some sa \<Rightarrow>
       (case var p1 i of None \<Rightarrow> None | Some vb \<Rightarrow>
        (case sum_im p1 i of None \<Rightarrow> None | Some sb \<Rightarrow>
          if N p1 = 0 then None else Some (chan va sa (N p0) vb sb (N p1))))))"
  using assms
  by (simp add: merge_def Let_def a_add_def a_sub_def a_mul_def a_scale_def a_div_def
      e_add_def e_sub_def e_mul_def e_scale_def e_div_def chan_def split: option.splits)

lemma merge_pixel_cong:
  assumes "var p0 i = var q0 i" "sum_im p0 i = sum_im q0 i" "N p0 = N q0"
    and "var p1 i = var q1 i" "sum_im p1 i = sum_im q1 i" "N p1 = N q1"
  shows "var (merge p0 p1) i = var (merge q0 q1) i"
    and "sum_im (merge p0 p1) i = sum_im (merge q0 q1) i"
    and "N (merge p0 p1) = N (merge q0 q1)"
  using assms by (simp_all add: merge_def Let_def a_defs)

text \<open>
  On accumulators with positive counts the merge is commutative and associative, for
  finite and non-finite elements alike.
\<close>

lemma merge_commute_pos:
  assumes "0 < N p0" "0 < N p1"
  shows "merge p0 p1 = merge p1 p0"
proof -
  have v: "var (merge p0 p1) = var (merge p1 p0)"
    using assms chan_commute[OF assms]
    by (intro ext) (simp add: merge_var_pixel split: option.splits)
  have s: "sum_im (merge p0 p1) = sum_im (merge p1 p0)"
    using assms
    by (intro ext) (simp add: merge_sum_pixel e_add_def split: option.splits)
  have n: "N (merge p0 p1) = N (merge p1 p0)" by (simp add: merge_N)
  show ?thesis using v s n by simp
qed

lemma merge_assoc_pos:
  assumes "0 < N p0" "0 < N p1" "0 < N p2"
  shows "merge (merge p0 p1) p2 = merge p0 (merge p1 p2)"
proof -
  have v: "var (merge (merge p0 p1) p2) = var (merge p0 (merge p1 p2))"
    using assms chan_assoc[OF assms]
    by (intro ext) (simp add: merge_var_pixel merge_sum_pixel merge_N e_add_def split: option.splits)
  have s: "sum_im (merge (merge p0 p1) p2) = sum_im (merge p0 (merge p1 p2))"
    using assms
    by (intro ext) (simp add: merge_sum_pixel merge_N e_add_def split: option.splits)
  have n: "N (merge (merge p0 p1) p2) = N (merge p0 (merge p1 p2))" by (simp add: merge_N)
  show ?thesis using v s n by simp
qed

text \<open>
  An empty accumulator on the left is skipped by the guard \<open>if p0.N == 0\<close>.  There is
  no guard for an empty accumulator on the right: the mean \<open>p1.sum_im / p1.N\<close> is a
  division by zero, and every element of the merged \<open>var\<close> is non-finite.
\<close>

lemma merge_empty_left: "N p0 = 0 \<Longrightarrow> merge p0 p1 = p1"
  by (simp add: merge_def)

lemma merge_empty_right_var: "0 < N p0 \<Longrightarrow> N p1 = 0 \<Longrightarrow> var (merge p0 p1) = nans"
  by (intro ext) (simp add: merge_var_pixel nans_def split: option.splits)

text \<open>
  C4 (the empty accumulator is a two-sided identity of the merge): the code keeps the
  left half only.  Merging the empty accumulator (zero arrays, count 0) on the left of
  the accumulator of one frame of value 2 returns that accumulator; merging it on the
  right returns sum and count unchanged but a \<open>var\<close> array of NaN instead of the zeros
  of the input.
\<close>

theorem merge_right_empty_contaminates:
  "merge \<lparr>var = zeros, sum_im = zeros, N = 0\<rparr> \<lparr>var = zeros, sum_im = full 2, N = 1\<rparr>
     = \<lparr>var = zeros, sum_im = full 2, N = 1\<rparr>
   \<and> merge \<lparr>var = zeros, sum_im = full 2, N = 1\<rparr> \<lparr>var = zeros, sum_im = zeros, N = 0\<rparr>
     = \<lparr>var = nans, sum_im = full 2, N = 1\<rparr>
   \<and> (nans :: bool array) True = None \<and> (zeros :: bool array) True = Some 0"
  by (simp add: merge_def Let_def a_defs e_defs zeros_def full_def nans_def)

text \<open>
  C3 (the merge is commutative and associative for all accumulators): with the empty
  accumulator as right operand the code breaks both laws.  For \<open>A\<close> (two frames, sum 4,
  squared deviations 2), the empty accumulator \<open>E\<close> and \<open>C\<close> (one frame of value 8),
  \<open>merge A E\<close> has a NaN \<open>var\<close> while \<open>merge E A = A\<close>, and
  \<open>merge (merge A E) C\<close> has a NaN \<open>var\<close> while \<open>merge A (merge E C)\<close> has the
  squared deviations 26 of the three frames.
\<close>

theorem merge_not_commutative_with_empty:
  "merge \<lparr>var = full 2, sum_im = full 4, N = 2\<rparr> \<lparr>var = zeros, sum_im = zeros, N = 0\<rparr>
     = \<lparr>var = nans, sum_im = full 4, N = 2\<rparr>
   \<and> merge \<lparr>var = zeros, sum_im = zeros, N = 0\<rparr> \<lparr>var = full 2, sum_im = full 4, N = 2\<rparr>
     = \<lparr>var = full 2, sum_im = full 4, N = 2\<rparr>
   \<and> merge (merge \<lparr>var = full 2, sum_im = full 4, N = 2\<rparr> \<lparr>var = zeros, sum_im = zeros, N = 0\<rparr>)
        \<lparr>var = zeros, sum_im = full 8, N = 1\<rparr>
     = \<lparr>var = nans, sum_im = full 12, N = 3\<rparr>
   \<and> merge \<lparr>var = full 2, sum_im = full 4, N = 2\<rparr>
        (merge \<lparr>var = zeros, sum_im = zeros, N = 0\<rparr> \<lparr>var = zeros, sum_im = full 8, N = 1\<rparr>)
     = \<lparr>var = full 26, sum_im = full 12, N = 3\<rparr>
   \<and> (nans :: bool array) True \<noteq> (full 26 :: bool array) True"
  by (simp add: merge_def Let_def a_defs e_defs zeros_def full_def nans_def)

subsection \<open>Count validation\<close>

lemma validate_n_Inr_iff:
  "validate_n nf = Inr v \<longleftrightarrow> (nf = [] \<and> v = 0) \<or> (nf \<noteq> [] \<and> (\<forall>p\<in>set nf. snd p = v))"
  by (cases nf) (auto simp: validate_n_def list_all_iff)

lemma validate_n_cases: "validate_n nf = Inl AssertionError \<or> (\<exists>v. validate_n nf = Inr v)"
  by (cases "validate_n nf") (auto intro: error.exhaust)

text \<open>
  C5: \<open>_validate_n\<close> returns 0 on the empty mapping, the common value when the mapping
  is not empty and all its values are equal, and fails (the failed \<open>assert\<close>, which is
  what the specification calls InconsistentCountError) when two values differ.
\<close>

theorem validate_n_spec:
  fixes nf :: "('k \<times> nat) list"
  shows "validate_n ([] :: ('k \<times> nat) list) = Inr 0
   \<and> (nf \<noteq> [] \<and> (\<forall>p\<in>set nf. snd p = v) \<longrightarrow> validate_n nf = Inr v)
   \<and> ((k1, v1) \<in> set nf \<and> (k2, v2) \<in> set nf \<and> v1 \<noteq> v2
        \<longrightarrow> validate_n nf = Inl AssertionError)"
proof (intro conjI impI)
  show "validate_n ([] :: ('k \<times> nat) list) = Inr 0" by (simp add: validate_n_def)
next
  assume "nf \<noteq> [] \<and> (\<forall>p\<in>set nf. snd p = v)"
  then show "validate_n nf = Inr v" by (simp add: validate_n_Inr_iff)
next
  assume d: "(k1, v1) \<in> set nf \<and> (k2, v2) \<in> set nf \<and> v1 \<noteq> v2"
  have "validate_n nf \<noteq> Inr w" for w
  proof
    assume "validate_n nf = Inr w"
    then have "\<forall>p\<in>set nf. snd p = w" using d by (auto simp: validate_n_Inr_iff)
    then have "v1 = w" "v2 = w" using d by auto
    then show False using d by simp
  qed
  then show "validate_n nf = Inl AssertionError" using validate_n_cases[of nf] by auto
qed

theorem validate_n_spec_witness:
  "validate_n ([] :: (nat \<times> nat) list) = Inr 0
   \<and> validate_n [(1::nat, 3::nat), (2, 3)] = Inr 3
   \<and> validate_n [(1::nat, 3::nat), (2, 4)] = Inl AssertionError"
  using validate_n_spec [of "[(1::nat, 3::nat), (2, 3)]" 3 1 3 2 3]
        validate_n_spec [of "[(1::nat, 3::nat), (2, 4)]" 3 1 3 2 4]
  by simp

subsection \<open>The partition merge step\<close>

lemma map_of_fold_update:
  "map_of (fold (\<lambda>key d. AList.update key n d) ks d) k
   = (if k \<in> set ks then Some n else map_of d k)"
  by (induction ks arbitrary: d) (auto simp: update_conv')

lemma StdDevUDF_merge_Inr:
  assumes "validate_n (buf_num_frame dest) = Inr N0"
    and "validate_n (buf_num_frame src) = Inr N1"
  shows "StdDevUDF_merge dest src =
     Inr \<lparr>buf_var = var (merge \<lparr>var = buf_var dest, sum_im = buf_sum_frame dest, N = N0\<rparr>
                                \<lparr>var = buf_var src, sum_im = buf_sum_frame src, N = N1\<rparr>),
          buf_sum_frame = sum_im (merge \<lparr>var = buf_var dest, sum_im = buf_sum_frame dest, N = N0\<rparr>
                                \<lparr>var = buf_var src, sum_im = buf_sum_frame src, N = N1\<rparr>),
          buf_num_frame = fold (\<lambda>key d. AList.update key (N0 + N1) d)
                            (map fst (buf_num_frame src)) (buf_num_frame dest)\<rparr>"
  using assms by (simp add: StdDevUDF_merge_def Let_def merge_N)

text \<open>
  C7: when both count mappings are consistent, \<open>StdDevUDF.merge(dest, src)\<close> leaves
  in \<open>dest\<close> the \<open>var\<close> and \<open>sum_frame\<close> of the pairwise merge, sets the count of
  every key of \<open>src\<close> to \<open>N_dest + N_src\<close>, and leaves the count of every other key,
  in particular of a key that only \<open>dest\<close> has, as it was.
\<close>

theorem StdDevUDF_merge_effect:
  assumes "validate_n (buf_num_frame dest) = Inr N0"
    and "validate_n (buf_num_frame src) = Inr N1"
  shows "\<exists>dest'. StdDevUDF_merge dest src = Inr dest'
     \<and> buf_var dest' =
         var (merge \<lparr>var = buf_var dest, sum_im = buf_sum_frame dest, N = N0\<rparr>
                    \<lparr>var = buf_var src, sum_im = buf_sum_frame src, N = N1\<rparr>)
     \<and> buf_sum_frame dest' =
         sum_im (merge \<lparr>var = buf_var dest, sum_im = buf_sum_frame dest, N = N0\<rparr>
                       \<lparr>var = buf_var src, sum_im = buf_sum_frame src, N = N1\<rparr>)
     \<and> (\<forall>k \<in> fst ` set (buf_num_frame src). map_of (buf_num_frame dest') k = Some (N0 + N1))
     \<and> (\<forall>k. k \<notin> fst ` set (buf_num_frame src) \<longrightarrow>
            map_of (buf_num_frame dest') k = map_of (buf_num_frame dest) k)"
  using assms
  by (auto simp: StdDevUDF_merge_def Let_def map_of_fold_update merge_N)

text \<open>
  \<open>dest\<close> holds two frames on the keys \<open>{False}\<close> and \<open>{True}\<close>, \<open>src\<close> one frame
  of value 8 on the key \<open>{True}\<close> only.
\<close>

theorem StdDevUDF_merge_effect_witness:
  "\<exists>dest'. StdDevUDF_merge
       \<lparr>buf_var = full 2, buf_sum_frame = full 4, buf_num_frame = [({False}, 2), ({True}, 2)]\<rparr>
       \<lparr>buf_var = zeros, buf_sum_frame = full 8, buf_num_frame = [({True}, 1)]\<rparr> = Inr dest'
     \<and> buf_var dest' True = Some 26
     \<and> buf_sum_frame dest' True = Some 12
     \<and> map_of (buf_num_frame dest') {True} = Some 3
     \<and> map_of (buf_num_frame dest') {False} = Some 2"
  using StdDevUDF_merge_effect [of
      "\<lparr>buf_var = full 2, buf_sum_frame = full 4, buf_num_frame = [({False}, 2), ({True}, 2)]\<rparr>" 2
      "\<lparr>buf_var = zeros, buf_sum_frame = full 8, buf_num_frame = [({True}, 1)]\<rparr>" 1]
  by (auto simp: validate_n_def merge_def Let_def a_defs e_defs full_def zeros_def)

subsection \<open>The finalization step\<close>

text \<open>
  C8: for a non-empty count mapping whose values all equal \<open>n > 0\<close>,
  \<open>consolidate_result\<close> returns \<open>var / n\<close>, its square root, \<open>sum_frame / n\<close>, the
  raw \<open>sum_frame\<close> and \<open>n\<close>; at a pixel with finite input these are the real quotient
  and, for a non-negative variance sum, the real square root.
\<close>

theorem consolidate_result_spec:
  assumes "buf_num_frame res \<noteq> []"
    and "\<forall>p \<in> set (buf_num_frame res). snd p = n"
    and "0 < n"
  shows "consolidate_result res =
           Inr \<lparr>res_var = a_div (buf_var res) n,
                res_std = a_sqrt (a_div (buf_var res) n),
                res_mean = a_div (buf_sum_frame res) n,
                res_num_frame = n,
                res_sum_frame = buf_sum_frame res\<rparr>
     \<and> (\<forall>i v. buf_var res i = Some v \<longrightarrow>
           a_div (buf_var res) n i = Some (v / real n)
           \<and> (0 \<le> v \<longrightarrow> a_sqrt (a_div (buf_var res) n) i = Some (sqrt (v / real n))))
     \<and> (\<forall>i s. buf_sum_frame res i = Some s \<longrightarrow>
           a_div (buf_sum_frame res) n i = Some (s / real n))"
proof -
  have "validate_n (buf_num_frame res) = Inr n"
    using assms by (simp add: validate_n_Inr_iff)
  then show ?thesis
    using assms(3)
    by (auto simp: consolidate_result_def Let_def a_div_def a_sqrt_def e_div_def e_sqrt_def
        divide_less_0_iff)
qed

theorem consolidate_result_spec_witness:
  "consolidate_result \<lparr>buf_var = full 8, buf_sum_frame = full 6, buf_num_frame = [({True, False}, 2)]\<rparr>
     = Inr \<lparr>res_var = a_div (full 8) 2, res_std = a_sqrt (a_div (full 8) 2),
            res_mean = a_div (full 6) 2, res_num_frame = 2, res_sum_frame = full 6\<rparr>
   \<and> a_div (full 8) 2 True = Some 4
   \<and> a_sqrt (a_div (full 8) 2) True = Some 2
   \<and> a_div (full 6) 2 True = Some 3"
  using consolidate_result_spec [of
      "\<lparr>buf_var = full 8, buf_sum_frame = full 6, buf_num_frame = [({True, False}, 2)]\<rparr>" 2]
  by (simp add: full_def a_div_def a_sqrt_def e_div_def e_sqrt_def)

text \<open>
  C9 as stated does not hold: on buffers no tile was folded into, \<open>consolidate_result\<close>
  raises nothing.  It divides by the count 0 and returns arrays of NaN.
\<close>

theorem consolidate_result_empty_counterexample:
  "consolidate_result (preprocess (allocate_buffers :: bool results))
     = Inr \<lparr>res_var = nans, res_std = nans, res_mean = nans, res_num_frame = 0,
            res_sum_frame = zeros\<rparr>"
  by (simp add: consolidate_result_def Let_def preprocess_def allocate_buffers_def validate_n_def
      a_div_def a_sqrt_def e_div_def e_sqrt_def zeros_def nans_def)

text \<open>
  C9, amended: when the count mapping is empty or all its counts are 0,
  \<open>consolidate_result\<close> raises no error; it returns \<open>num_frame = 0\<close>, the raw
  \<open>sum_frame\<close>, and \<open>var\<close>, \<open>std\<close> and \<open>mean\<close> arrays whose every element is
  non-finite (the result of the division by zero).
\<close>

theorem consolidate_result_no_frames:
  assumes "\<forall>p \<in> set (buf_num_frame res). snd p = 0"
  shows "consolidate_result res
     = Inr \<lparr>res_var = nans, res_std = nans, res_mean = nans, res_num_frame = 0,
            res_sum_frame = buf_sum_frame res\<rparr>"
proof -
  have "validate_n (buf_num_frame res) = Inr 0"
    using assms by (cases "buf_num_frame res = []") (simp_all add: validate_n_Inr_iff)
  then show ?thesis
    by (auto simp: consolidate_result_def Let_def a_div_def a_sqrt_def e_div_def e_sqrt_def
        nans_def fun_eq_iff split: option.splits)
qed

theorem consolidate_result_no_frames_witness:
  "consolidate_result \<lparr>buf_var = full 0, buf_sum_frame = full 0, buf_num_frame = [({True}, 0)]\<rparr>
     = Inr \<lparr>res_var = nans, res_std = nans, res_mean = nans, res_num_frame = 0,
            res_sum_frame = full 0\<rparr>"
  using consolidate_result_no_frames [of
      "\<lparr>buf_var = full 0, buf_sum_frame = full 0, buf_num_frame = [({True}, 0)]\<rparr>"]
  by simp

subsection \<open>Sums and squared deviations of a pixel column\<close>

lemma ssd_expand:
  "(\<Sum>x\<leftarrow>xs. (x - m)\<^sup>2) = (\<Sum>x\<leftarrow>xs. x\<^sup>2) - 2 * m * sum_list xs + real (length xs) * m\<^sup>2"
  by (induction xs) (simp_all add: power2_eq_square algebra_simps)

lemma ssd_alt:
  assumes "xs \<noteq> []"
  shows "ssd xs = (\<Sum>x\<leftarrow>xs. x\<^sup>2) - (sum_list xs)\<^sup>2 / real (length xs)"
proof -
  have n: "real (length xs) \<noteq> 0" using assms by simp
  show ?thesis
    unfolding ssd_def ssd_expand using n
    by (simp add: power2_eq_square field_simps)
qed

lemma ssd_append:
  assumes "xs \<noteq> []" "ys \<noteq> []"
  shows "ssd (xs @ ys) = ssd xs + ssd ys
          + real (length ys) * (sum_list ys / real (length ys) - sum_list xs / real (length xs))
            * (sum_list ys / real (length ys) - (sum_list xs / real (length xs)
                 + real (length ys) * (sum_list ys / real (length ys) - sum_list xs / real (length xs)) / real (length xs + length ys)))"
proof -
  have "xs @ ys \<noteq> []" using assms by simp
  then show ?thesis
    using assms chan_real[of "length xs" "length ys" "\<Sum>x\<leftarrow>xs. x\<^sup>2" "sum_list xs" "\<Sum>x\<leftarrow>ys. x\<^sup>2" "sum_list ys"]
    by (simp add: ssd_alt)
qed

lemma e_sum_map_Some: "e_sum (map Some ys) = Some (sum_list ys)"
  by (induction ys) (simp_all add: e_add_def)

lemma e_sum_None: "None \<in> set xs \<Longrightarrow> e_sum xs = None"
  by (induction xs) (auto simp: e_add_def split: option.splits)

lemma finite_column: "None \<notin> set xs \<Longrightarrow> xs = map Some (map the xs)"
  by (induction xs) auto

lemma e_sum_sq_dev:
  "e_sum (map (\<lambda>d. e_mul d d) (map (\<lambda>v. e_sub v (Some m)) (map Some ys)))
   = Some (\<Sum>x\<leftarrow>ys. (x - m)\<^sup>2)"
  by (induction ys) (simp_all add: e_add_def e_sub_def e_mul_def power2_eq_square)

lemma e_var_finite: "e_var (map Some ys) (int (length ys) - 1) = Some (ssd ys)"
proof (cases "ys = []")
  case True
  then show ?thesis by (simp add: e_var_def e_div_def ssd_def)
next
  case False
  have m: "e_div (e_sum (map Some ys)) (length (map Some ys))
           = Some (sum_list ys / real (length ys))"
    using False by (simp add: e_sum_map_Some e_div_def)
  show ?thesis
    unfolding e_var_def Let_def m e_sum_sq_dev by (simp add: e_div_def ssd_def)
qed

lemma e_var_nonfinite:
  assumes "None \<in> set xs"
  shows "e_var xs d = None"
proof -
  have "e_sum xs = None" using assms by (rule e_sum_None)
  then have m: "e_div (e_sum xs) (length xs) = None" by (simp add: e_div_def)
  have "map (\<lambda>d. e_mul d d) (map (\<lambda>v. e_sub v None) xs) = map (\<lambda>v. None) xs"
    by (simp add: e_sub_def e_mul_def split: option.splits)
  moreover have "None \<in> set (map (\<lambda>v. None :: elem) xs)" using assms by auto
  ultimately have "e_sum (map (\<lambda>d. e_mul d d) (map (\<lambda>v. e_sub v None) xs)) = None"
    using e_sum_None by metis
  then show ?thesis unfolding e_var_def Let_def m by (simp add: e_div_def)
qed

lemma e_merge_columns:
  assumes "xs \<noteq> []" "ys \<noteq> []"
  shows "e_add (e_add (e_var xs (int (length xs) - 1)) (e_var ys (int (length ys) - 1)))
           (e_mul (e_scale (length ys) (e_sub (e_div (e_sum ys) (length ys)) (e_div (e_sum xs) (length xs))))
              (e_sub (e_div (e_sum ys) (length ys))
                 (e_add (e_div (e_sum xs) (length xs))
                    (e_div (e_scale (length ys) (e_sub (e_div (e_sum ys) (length ys)) (e_div (e_sum xs) (length xs))))
                       (length xs + length ys)))))
         = e_var (xs @ ys) (int (length (xs @ ys)) - 1)"
proof (cases "None \<in> set xs \<or> None \<in> set ys")
  case True
  then have "None \<in> set (xs @ ys)" by auto
  then have r: "e_var (xs @ ys) (int (length (xs @ ys)) - 1) = None" by (rule e_var_nonfinite)
  from True have "e_var xs (int (length xs) - 1) = None \<or> e_var ys (int (length ys) - 1) = None"
    using e_var_nonfinite[of xs "int (length xs) - 1"] e_var_nonfinite[of ys "int (length ys) - 1"]
    by auto
  then have "e_add (e_var xs (int (length xs) - 1)) (e_var ys (int (length ys) - 1)) = None"
    by (auto simp: e_add_def split: option.splits)
  then show ?thesis unfolding r by (simp add: e_add_def)
next
  case False
  then obtain xr yr where xr: "xs = map Some xr" and yr: "ys = map Some yr"
    using finite_column by blast
  have nx: "xr \<noteq> []" and ny: "yr \<noteq> []" using assms xr yr by auto
  have app: "xs @ ys = map Some (xr @ yr)" using xr yr by simp
  have lx: "length xs = length xr" and ly: "length ys = length yr" using xr yr by simp_all
  have "e_var (xs @ ys) (int (length (xs @ ys)) - 1) = Some (ssd (xr @ yr))"
    unfolding app using e_var_finite[of "xr @ yr"] by simp
  moreover have "e_var xs (int (length xs) - 1) = Some (ssd xr)"
    unfolding xr using e_var_finite[of xr] by simp
  moreover have "e_var ys (int (length ys) - 1) = Some (ssd yr)"
    unfolding yr using e_var_finite[of yr] by simp
  moreover have "e_sum xs = Some (sum_list xr)" "e_sum ys = Some (sum_list yr)"
    unfolding xr yr by (simp_all add: e_sum_map_Some)
  ultimately show ?thesis
    using nx ny ssd_append[OF nx ny] unfolding lx ly
    by (simp add: e_defs)
qed

lemma e_add_zero_left: "e_add (Some 0) y = y"
  by (simp add: e_add_def split: option.splits)

lemma e_add_assoc: "e_add (e_add a b) c = e_add a (e_add b c)"
  by (simp add: e_add_def split: option.splits)

lemma e_sum_append: "e_sum (xs @ ys) = e_add (e_sum xs) (e_sum ys)"
  by (induction xs) (simp_all add: e_add_zero_left e_add_assoc)

lemma tile_part_append:
  assumes "t0 \<noteq> []" "t1 \<noteq> []"
  shows "merge (tile_part t0) (tile_part t1) = tile_part (t0 @ t1)"
proof -
  have v: "var (merge (tile_part t0) (tile_part t1)) = var (tile_part (t0 @ t1))"
  proof (rule ext)
    fix i
    let ?xs = "map (\<lambda>frame. frame i) t0" and ?ys = "map (\<lambda>frame. frame i) t1"
    have "?xs \<noteq> []" "?ys \<noteq> []" using assms by simp_all
    from e_merge_columns[OF this] assms
    show "var (merge (tile_part t0) (tile_part t1)) i = var (tile_part (t0 @ t1)) i"
      by (simp add: merge_def Let_def tile_part_def np_var_def np_sum_def a_defs)
  qed
  have s: "sum_im (merge (tile_part t0) (tile_part t1)) = sum_im (tile_part (t0 @ t1))"
    using assms
    by (intro ext) (simp add: merge_def Let_def tile_part_def np_sum_def a_add_def e_sum_append)
  have n: "N (merge (tile_part t0) (tile_part t1)) = N (tile_part (t0 @ t1))"
    by (simp add: merge_N tile_part_def)
  show ?thesis using v s n by simp
qed

lemma tile_part_finite:
  assumes "map (\<lambda>frame. frame i) tile = map Some ys"
  shows "sum_im (tile_part tile) i = Some (sum_list ys)"
    and "var (tile_part tile) i = Some (ssd ys)"
proof -
  have len: "length tile = length ys" using assms by (metis length_map)
  show "sum_im (tile_part tile) i = Some (sum_list ys)"
    using assms by (simp add: tile_part_def np_sum_def e_sum_map_Some)
  show "var (tile_part tile) i = Some (ssd ys)"
    using assms e_var_finite[of ys] by (simp add: tile_part_def np_var_def len)
qed

subsection \<open>The tile update step\<close>

lemma process_tile_unfold:
  "process_tile key tile res =
     (let prev = (case map_of (buf_num_frame res) key of None \<Rightarrow> 0 | Some n \<Rightarrow> n);
          merged = merge \<lparr>var = buf_var res, sum_im = buf_sum_frame res, N = prev\<rparr> (tile_part tile)
      in \<lparr>buf_var = write_view key (buf_var res) (var merged),
          buf_sum_frame = write_view key (buf_sum_frame res) (sum_im merged),
          buf_num_frame = AList.update key (prev + length tile) (buf_num_frame res)\<rparr>)"
  by (cases "map_of (buf_num_frame res) key")
     (simp_all add: process_tile_def Let_def tile_part_def update_conv' merge_N)

text \<open>
  C6: for a tile of at least one frame and a region key, with \<open>prev\<close> the stored count
  of the key (0 when the key is new), \<open>process_tile\<close> builds the local accumulator
  \<open>(np.var(tile, ddof = f - 1), tile.sum, f)\<close>, merges it into
  \<open>(var, sum_frame, prev)\<close>, writes the merged arrays on the pixels of the region and
  nowhere else, stores \<open>prev + f\<close> for the key and touches no other key.  On a pixel
  whose column of the tile is finite, the local sum is the sum of the column and the
  local variance sum is the raw sum of squared deviations from the column's own mean:
  the divisor \<open>f - ddof\<close> is 1.
\<close>

theorem process_tile_spec:
  assumes "tile \<noteq> []"
  shows "(let prev = (case map_of (buf_num_frame res) key of None \<Rightarrow> 0 | Some n \<Rightarrow> n);
              local = \<lparr>var = np_var tile (int (length tile) - 1), sum_im = np_sum tile,
                       N = length tile\<rparr>;
              merged = merge \<lparr>var = buf_var res, sum_im = buf_sum_frame res, N = prev\<rparr> local;
              res' = process_tile key tile res
          in map_of (buf_num_frame res') key = Some (prev + length tile)
           \<and> (\<forall>i\<in>key. buf_var res' i = var merged i \<and> buf_sum_frame res' i = sum_im merged i)
           \<and> (\<forall>i. i \<notin> key \<longrightarrow>
                 buf_var res' i = buf_var res i \<and> buf_sum_frame res' i = buf_sum_frame res i)
           \<and> (\<forall>k. k \<noteq> key \<longrightarrow> map_of (buf_num_frame res') k = map_of (buf_num_frame res) k)
           \<and> (\<forall>i ys. map (\<lambda>frame. frame i) tile = map Some ys \<longrightarrow>
                 sum_im local i = Some (sum_list ys)
                 \<and> var local i = Some (\<Sum>x\<leftarrow>ys. (x - sum_list ys / real (length ys))\<^sup>2)))"
proof -
  have fin: "sum_im (tile_part tile) i = Some (sum_list ys)
             \<and> var (tile_part tile) i = Some (\<Sum>x\<leftarrow>ys. (x - sum_list ys / real (length ys))\<^sup>2)"
    if "map (\<lambda>frame. frame i) tile = map Some ys" for i ys
    using tile_part_finite[OF that] by (simp add: ssd_def)
  show ?thesis
    unfolding process_tile_unfold Let_def tile_part_def[symmetric]
    using fin by (simp add: update_conv' write_view_def)
qed

text \<open>
  A frame of value 8 folded into two frames with sum 4 and squared deviations 2, on the
  region \<open>{True}\<close>; the pixel \<open>False\<close> lies outside the region.
\<close>

theorem process_tile_spec_witness:
  "map_of (buf_num_frame (process_tile {True} [full 8]
       \<lparr>buf_var = full 2, buf_sum_frame = full 4, buf_num_frame = [({True}, 2)]\<rparr>)) {True} = Some 3
   \<and> buf_var (process_tile {True} [full 8]
       \<lparr>buf_var = full 2, buf_sum_frame = full 4, buf_num_frame = [({True}, 2)]\<rparr>) True = Some 26
   \<and> buf_sum_frame (process_tile {True} [full 8]
       \<lparr>buf_var = full 2, buf_sum_frame = full 4, buf_num_frame = [({True}, 2)]\<rparr>) True = Some 12
   \<and> buf_var (process_tile {True} [full 8]
       \<lparr>buf_var = full 2, buf_sum_frame = full 4, buf_num_frame = [({True}, 2)]\<rparr>) False = Some 2"
  using process_tile_spec [of "[full 8]"
      "\<lparr>buf_var = full 2, buf_sum_frame = full 4, buf_num_frame = [({True}, 2)]\<rparr>" "{True}"]
  by (simp add: process_tile_def write_view_def Let_def merge_def a_defs e_defs full_def
      np_sum_def np_var_def e_var_def)

text \<open>
  \<open>process_tile\<close> keeps the arrays and the count of a region together: the frames of
  the tile are appended to the frames the region describes, and a region disjoint from
  the tile's is left as it is.
\<close>

lemma process_tile_region_holds:
  assumes "region_holds key fs res" and "tile \<noteq> []"
  shows "region_holds key (fs @ tile) (process_tile key tile res)"
proof -
  define prev where "prev = (case map_of (buf_num_frame res) key of None \<Rightarrow> 0 | Some n \<Rightarrow> n)"
  define p0 where "p0 = \<lparr>var = buf_var res, sum_im = buf_sum_frame res, N = prev\<rparr>"
  have prev: "prev = length fs" using assms(1) by (simp add: region_holds_def prev_def)
  have pix: "var (merge p0 (tile_part tile)) i = var (tile_part (fs @ tile)) i
           \<and> sum_im (merge p0 (tile_part tile)) i = sum_im (tile_part (fs @ tile)) i"
    if i: "i \<in> key" for i
  proof (cases "fs = []")
    case True
    then have "N p0 = 0" using prev by (simp add: p0_def)
    then show ?thesis using True by (simp add: merge_empty_left)
  next
    case False
    then have a: "var p0 i = var (tile_part fs) i" "sum_im p0 i = sum_im (tile_part fs) i"
      using assms(1) i by (simp_all add: region_holds_def p0_def)
    have n: "N p0 = N (tile_part fs)" using prev by (simp add: p0_def tile_part_def)
    have "var (merge p0 (tile_part tile)) i = var (merge (tile_part fs) (tile_part tile)) i"
      and "sum_im (merge p0 (tile_part tile)) i = sum_im (merge (tile_part fs) (tile_part tile)) i"
      using merge_pixel_cong[OF a(1) a(2) n refl refl refl] by simp_all
    then show ?thesis using tile_part_append[OF False assms(2)] by simp
  qed
  show ?thesis
    unfolding region_holds_def process_tile_unfold Let_def
    using pix prev
    by (simp add: update_conv' write_view_def prev_def p0_def)
qed

lemma process_tile_other_region:
  assumes "region_holds key' fs res" and "key' \<noteq> key" and "key' \<inter> key = {}"
  shows "region_holds key' fs (process_tile key tile res)"
  using assms unfolding region_holds_def process_tile_unfold Let_def
  by (auto simp: update_conv' write_view_def)

subsection \<open>Streaming single frames and the two-pass variance\<close>

lemma stream_region_holds:
  "region_holds key fs res \<Longrightarrow>
   region_holds key (fs @ frames) (fold (\<lambda>frame. process_tile key [frame]) frames res)"
proof (induction frames arbitrary: fs res)
  case Nil
  then show ?case by simp
next
  case (Cons x xs)
  have "region_holds key (fs @ [x]) (process_tile key [x] res)"
    using Cons.prems by (rule process_tile_region_holds) simp
  from Cons.IH[OF this] show ?case by simp
qed

lemma stream_single_key:
  "buf_num_frame res = [] \<or> (\<exists>n. buf_num_frame res = [(key, n)]) \<Longrightarrow>
   \<exists>n. buf_num_frame (fold (\<lambda>frame. process_tile key [frame]) (x # xs) res) = [(key, n)]"
proof (induction xs arbitrary: x res)
  case Nil
  then show ?case unfolding process_tile_unfold Let_def by auto
next
  case (Cons y ys)
  have "\<exists>n. buf_num_frame (process_tile key [x] res) = [(key, n)]"
    using Cons.prems unfolding process_tile_unfold Let_def by auto
  then have "buf_num_frame (process_tile key [x] res) = []
             \<or> (\<exists>n. buf_num_frame (process_tile key [x] res) = [(key, n)])" by simp
  from Cons.IH[OF this, of y] show ?case by simp
qed

text \<open>
  In float32 arithmetic the streamed variance is not within a floating tolerance of the
  population variance for every input.  The numbers 100000000 and 100000008 are float32
  values.  Streamed as two single-frame tiles, the merge computes the joint mean
  100000004, which float32 rounds to 100000000; \<open>delta_P\<close> is then 8 instead of 4 and
  the variance sum 64 instead of 32.
\<close>

lemma f32_values:
  "f32 0 = Some 0" "f32 1 = Some 1" "f32 2 = Some 2" "f32 4 = Some 4" "f32 8 = Some 8"
  "f32 32 = Some 32" "f32 64 = Some 64"
  "f32 100000000 = Some 100000000" "f32 100000008 = Some 100000008"
  "f32 100000004 = Some 100000000" "f32 200000008 = Some 200000000"
  by code_simp+

lemmas f32_defs = f32_add_def f32_sub_def f32_mul_def f32_scale_def f32_div_def
  f32_a_add_def f32_a_sub_def f32_a_mul_def f32_a_scale_def f32_a_div_def

lemma f32_first_tile:
  "f32_process_tile UNIV [full 100000000] (preprocess allocate_buffers)
     = \<lparr>buf_var = zeros, buf_sum_frame = full 100000000, buf_num_frame = [(UNIV, 1)]\<rparr>"
  by (simp add: f32_process_tile_def Let_def preprocess_def allocate_buffers_def f32_merge_def
      write_view_def f32_np_sum_def f32_np_var_def f32_var_def f32_sum_def f32_defs f32_values
      zeros_def full_def)

lemma f32_second_tile:
  "f32_process_tile UNIV [full 100000008]
       \<lparr>buf_var = zeros, buf_sum_frame = full 100000000, buf_num_frame = [(UNIV, 1)]\<rparr>
     = \<lparr>buf_var = full 64, buf_sum_frame = full 200000000, buf_num_frame = [(UNIV, 2)]\<rparr>"
  by (simp add: f32_process_tile_def Let_def f32_merge_def
      write_view_def f32_np_sum_def f32_np_var_def f32_var_def f32_sum_def f32_defs f32_values
      zeros_def full_def)

text \<open>
  C2 as stated does not hold in floating point: for the two float32 frames 100000000
  and 100000008 the streamed and finalized variance is 32, while their population
  variance is 16.
\<close>

theorem streaming_float32_counterexample:
  "f32_consolidate_result (f32_stream_frames UNIV [full 100000000, full 100000008])
     = Inr \<lparr>res_var = full 32, res_std = f32_a_sqrt (full 32), res_mean = full 100000000,
            res_num_frame = 2, res_sum_frame = full 200000000\<rparr>
   \<and> population_variance [100000000, 100000008] = 16
   \<and> f32 100000000 = Some 100000000 \<and> f32 100000008 = Some 100000008"
proof -
  have s: "f32_stream_frames UNIV [full 100000000, full 100000008]
     = \<lparr>buf_var = full 64, buf_sum_frame = full 200000000, buf_num_frame = [(UNIV, 2)]\<rparr>"
    by (simp only: f32_stream_frames_def fold_simps comp_apply id_apply
        f32_first_tile f32_second_tile)
  have c: "f32_consolidate_result
       \<lparr>buf_var = full 64, buf_sum_frame = full 200000000, buf_num_frame = [(UNIV, 2)]\<rparr>
     = Inr \<lparr>res_var = full 32, res_std = f32_a_sqrt (full 32), res_mean = full 100000000,
            res_num_frame = 2, res_sum_frame = full 200000000\<rparr>"
    by (simp add: f32_consolidate_result_def Let_def validate_n_def f32_a_div_def f32_div_def
        f32_values full_def)
  have p: "population_variance [100000000, 100000008] = 16"
    by (simp add: population_variance_def power2_eq_square)
  show ?thesis unfolding s c p by (simp add: f32_values)
qed

text \<open>
  C2, amended: for a non-empty sequence of frames streamed as single-frame tiles under
  one region key and then finalized, at every pixel of the region whose values are
  finite the resulting variance is the two-pass population variance of the values of
  that pixel, exactly, in exact arithmetic; the frame count is the number of frames and
  the mean is their mean.  No floating tolerance is claimed for the float32 arithmetic
  of the buffers.
\<close>

theorem streaming_matches_two_pass:
  assumes "frames \<noteq> []" and "i \<in> key"
    and "map (\<lambda>frame. frame i) frames = map Some ys"
  shows "\<exists>r. consolidate_result (stream_frames key frames) = Inr r
           \<and> res_num_frame r = length frames
           \<and> res_var r i = Some (population_variance ys)
           \<and> res_mean r i = Some (sum_list ys / real (length ys))"
proof -
  define final where "final = stream_frames key frames"
  have init: "region_holds key [] (preprocess allocate_buffers)"
    by (simp add: region_holds_def preprocess_def allocate_buffers_def)
  have rh: "region_holds key frames final"
    using stream_region_holds[OF init, of frames] by (simp add: final_def stream_frames_def)
  obtain x xs where fr: "frames = x # xs" using assms(1) by (cases frames) auto
  have "buf_num_frame (preprocess allocate_buffers :: 'a results) = []"
    by (simp add: preprocess_def allocate_buffers_def)
  then obtain m where m: "buf_num_frame final = [(key, m)]"
    using stream_single_key[of "preprocess allocate_buffers" key x xs]
    by (auto simp: final_def stream_frames_def fr)
  have len: "length ys = length frames" using assms(3) by (metis length_map)
  have n: "0 < length frames" using assms(1) by simp
  have mn: "m = length frames" using rh m by (simp add: region_holds_def)
  have val: "validate_n (buf_num_frame final) = Inr (length frames)"
    using m mn by (simp add: validate_n_def)
  have v: "buf_var final i = Some (ssd ys)" and s: "buf_sum_frame final i = Some (sum_list ys)"
    using rh assms(1,2) tile_part_finite[OF assms(3)] by (simp_all add: region_holds_def)
  show ?thesis
    unfolding final_def[symmetric]
    using val v s n len
    by (simp add: consolidate_result_def Let_def a_div_def e_div_def population_variance_def ssd_def)
qed

text \<open>
  The scenario of the specification: ten frames with the values 0 to 9 have mean 4.5
  and population variance 8.25.
\<close>

theorem streaming_matches_two_pass_witness:
  "\<exists>r. consolidate_result
          (stream_frames (UNIV :: bool set) (map full [0, 1, 2, 3, 4, 5, 6, 7, 8, 9])) = Inr r
       \<and> res_num_frame r = 10
       \<and> res_var r True = Some 8.25
       \<and> res_mean r True = Some 4.5"
proof -
  have pv: "population_variance [0, 1, 2, 3, 4, 5, 6, 7, 8, 9] = 8.25"
    by (simp add: population_variance_def power2_eq_square)
  have l: "length (map (full :: real \<Rightarrow> bool array) [0, 1, 2, 3, 4, 5, 6, 7, 8, 9]) = 10"
    by simp
  have m: "sum_list [0, 1, 2, 3, 4, 5, 6, 7, 8, 9] / real (length [0 :: real, 1, 2, 3, 4, 5, 6, 7, 8, 9]) = 4.5"
    by simp
  have "\<exists>r. consolidate_result
          (stream_frames (UNIV :: bool set) (map full [0, 1, 2, 3, 4, 5, 6, 7, 8, 9])) = Inr r
       \<and> res_num_frame r = length (map (full :: real \<Rightarrow> bool array) [0, 1, 2, 3, 4, 5, 6, 7, 8, 9])
       \<and> res_var r True = Some (population_variance [0, 1, 2, 3, 4, 5, 6, 7, 8, 9])
       \<and> res_mean r True
           = Some (sum_list [0, 1, 2, 3, 4, 5, 6, 7, 8, 9] / real (length [0 :: real, 1, 2, 3, 4, 5, 6, 7, 8, 9]))"
    by (rule streaming_matches_two_pass) (simp_all add: full_def)
  then show ?thesis unfolding pv l m .
qed

subsection \<open>Counts and arrays across the partition merge\<close>

text \<open>
  For a key that both sides have (or when \<open>dest\<close> is still empty) and a non-empty
  \<open>src\<close>, the partition merge keeps arrays and count of the region together.
\<close>

lemma StdDevUDF_merge_region_holds:
  assumes d: "region_holds key f0 dest" and s: "region_holds key f1 src"
    and kd: "key \<in> fst ` set (buf_num_frame dest) \<or> buf_num_frame dest = []"
    and ks: "key \<in> fst ` set (buf_num_frame src)"
    and f1: "f1 \<noteq> []"
    and m: "StdDevUDF_merge dest src = Inr dest'"
  shows "region_holds key (f0 @ f1) dest'"
proof -
  obtain N0 where v0: "validate_n (buf_num_frame dest) = Inr N0"
    using m validate_n_cases[of "buf_num_frame dest"] by (auto simp: StdDevUDF_merge_def)
  obtain N1 where v1: "validate_n (buf_num_frame src) = Inr N1"
    using m v0 validate_n_cases[of "buf_num_frame src"] by (auto simp: StdDevUDF_merge_def)
  define p0 where "p0 = \<lparr>var = buf_var dest, sum_im = buf_sum_frame dest, N = N0\<rparr>"
  define p1 where "p1 = \<lparr>var = buf_var src, sum_im = buf_sum_frame src, N = N1\<rparr>"
  have count: "(case map_of nf key of None \<Rightarrow> 0 | Some n \<Rightarrow> n) = n'"
    if "validate_n nf = Inr n'" "key \<in> fst ` set nf \<or> nf = []" for nf :: "('a set \<times> nat) list" and n'
  proof (cases "nf = []")
    case True
    then show ?thesis using that by (simp add: validate_n_def)
  next
    case False
    then have "key \<in> fst ` set nf" using that by simp
    then obtain c where c: "map_of nf key = Some c"
      by (metis domD dom_map_of_conv_image_fst)
    then have "(key, c) \<in> set nf" by (rule map_of_SomeD)
    then have "c = n'" using that(1) False by (auto simp: validate_n_Inr_iff)
    then show ?thesis using c by simp
  qed
  have n0: "N0 = length f0" using count[OF v0 kd] d by (simp add: region_holds_def)
  have n1: "N1 = length f1" using count[OF v1] ks s by (simp add: region_holds_def)
  have eff: "buf_var dest' = var (merge p0 p1)" "buf_sum_frame dest' = sum_im (merge p0 p1)"
    "map_of (buf_num_frame dest') key = Some (N0 + N1)"
  proof -
    have ks': "key \<in> set (map fst (buf_num_frame src))" using ks by simp
    have d': "dest' = \<lparr>buf_var = var (merge p0 p1), buf_sum_frame = sum_im (merge p0 p1),
          buf_num_frame = fold (\<lambda>key d. AList.update key (N0 + N1) d)
                            (map fst (buf_num_frame src)) (buf_num_frame dest)\<rparr>"
      using m StdDevUDF_merge_Inr[OF v0 v1] by (simp add: p0_def p1_def)
    show "buf_var dest' = var (merge p0 p1)" "buf_sum_frame dest' = sum_im (merge p0 p1)"
      by (simp_all add: d')
    show "map_of (buf_num_frame dest') key = Some (N0 + N1)"
      unfolding d' using ks' by (simp only: results.simps map_of_fold_update if_True)
  qed
  have b1: "var p1 i = var (tile_part f1) i" "sum_im p1 i = sum_im (tile_part f1) i" if "i \<in> key" for i
    using s f1 that by (simp_all add: region_holds_def p1_def)
  have nb: "N p1 = N (tile_part f1)" using n1 by (simp add: p1_def tile_part_def)
  have pix: "var (merge p0 p1) i = var (tile_part (f0 @ f1)) i
           \<and> sum_im (merge p0 p1) i = sum_im (tile_part (f0 @ f1)) i" if i: "i \<in> key" for i
  proof (cases "f0 = []")
    case True
    then have "N p0 = 0" using n0 by (simp add: p0_def)
    then show ?thesis using True b1[OF i] by (simp add: merge_empty_left)
  next
    case False
    then have a: "var p0 i = var (tile_part f0) i" "sum_im p0 i = sum_im (tile_part f0) i"
      using d i by (simp_all add: region_holds_def p0_def)
    have na: "N p0 = N (tile_part f0)" using n0 by (simp add: p0_def tile_part_def)
    have "var (merge p0 p1) i = var (merge (tile_part f0) (tile_part f1)) i"
      and "sum_im (merge p0 p1) i = sum_im (merge (tile_part f0) (tile_part f1)) i"
      using merge_pixel_cong[OF a(1) a(2) na b1(1)[OF i] b1(2)[OF i] nb] by simp_all
    then show ?thesis using tile_part_append[OF False f1] by simp
  qed
  show ?thesis
    unfolding region_holds_def using eff pix n0 n1 by simp
qed

text \<open>
  C10 (the count of a key always equals the number of frames folded into the arrays it
  is paired with): the partition merge breaks it for a key that only \<open>dest\<close> has.
  One frame of value 2 is processed as two tiles, one per pixel; one frame of value 4
  is processed on another worker as a single tile over both pixels.  After the merge
  the arrays hold both frames on every pixel (sum 6, squared deviations 2), while the
  keys \<open>{False}\<close> and \<open>{True}\<close> still record 1 frame and only the key of \<open>src\<close>
  records 2; finalization then fails on the inconsistent counts.
\<close>

theorem merge_leaves_stale_count:
  "process_tile {True} [full 2] (process_tile {False} [full 2] (preprocess allocate_buffers))
     = \<lparr>buf_var = zeros, buf_sum_frame = full 2, buf_num_frame = [({False}, 1), ({True}, 1)]\<rparr>
   \<and> process_tile {False, True} [full 4] (preprocess allocate_buffers)
     = \<lparr>buf_var = zeros, buf_sum_frame = full 4, buf_num_frame = [({False, True}, 1)]\<rparr>
   \<and> StdDevUDF_merge
       \<lparr>buf_var = zeros, buf_sum_frame = full 2, buf_num_frame = [({False}, 1), ({True}, 1)]\<rparr>
       \<lparr>buf_var = zeros, buf_sum_frame = full 4, buf_num_frame = [({False, True}, 1)]\<rparr>
     = Inr \<lparr>buf_var = full 2, buf_sum_frame = full 6,
            buf_num_frame = [({False}, 1), ({True}, 1), ({False, True}, 2)]\<rparr>
   \<and> consolidate_result
       \<lparr>buf_var = full 2, buf_sum_frame = full 6,
        buf_num_frame = [({False}, 1), ({True}, 1), ({False, True}, 2)]\<rparr>
     = Inl AssertionError"
proof (intro conjI)
  show "process_tile {True} [full 2] (process_tile {False} [full 2] (preprocess allocate_buffers))
     = \<lparr>buf_var = zeros, buf_sum_frame = full 2, buf_num_frame = [({False}, 1), ({True}, 1)]\<rparr>"
    by (auto simp: process_tile_def Let_def preprocess_def allocate_buffers_def merge_def
        write_view_def np_sum_def np_var_def e_var_def a_defs e_defs zeros_def full_def fun_eq_iff)
  show "process_tile {False, True} [full 4] (preprocess allocate_buffers)
     = \<lparr>buf_var = zeros, buf_sum_frame = full 4, buf_num_frame = [({False, True}, 1)]\<rparr>"
    by (auto simp: process_tile_def Let_def preprocess_def allocate_buffers_def merge_def
        write_view_def np_sum_def np_var_def e_var_def a_defs e_defs zeros_def full_def fun_eq_iff)
  show "StdDevUDF_merge
       \<lparr>buf_var = zeros, buf_sum_frame = full 2, buf_num_frame = [({False}, 1), ({True}, 1)]\<rparr>
       \<lparr>buf_var = zeros, buf_sum_frame = full 4, buf_num_frame = [({False, True}, 1)]\<rparr>
     = Inr \<lparr>buf_var = full 2, buf_sum_frame = full 6,
            buf_num_frame = [({False}, 1), ({True}, 1), ({False, True}, 2)]\<rparr>"
    by (auto simp: StdDevUDF_merge_def validate_n_def Let_def merge_def a_defs e_defs
        zeros_def full_def fun_eq_iff)
  show "consolidate_result
       \<lparr>buf_var = full 2, buf_sum_frame = full 6,
        buf_num_frame = [({False}, 1), ({True}, 1), ({False, True}, 2)]\<rparr>
     = Inl AssertionError"
    by (simp add: consolidate_result_def validate_n_def)
qed

end
